theory Spec2Isabelle
  imports Main
begin

section \<open>JavaScript values read by the access-control front end\<close>

text \<open>
  The evaluator \<open>hasPermission\<close> and the sidebar filter \<open>hasAccessToDatabase\<close> return
  \<open>true\<close>, \<open>false\<close>, \<open>null\<close> or, where a property that is read is absent,
  \<open>undefined\<close>.
\<close>

datatype jsval = JTrue | JFalse | JNull | JUndefined

text \<open>A boolean property of an object; \<open>None\<close> is a property that is absent.\<close>

definition js_of_flag :: "bool option \<Rightarrow> jsval" where
  "js_of_flag f = (case f of None \<Rightarrow> JUndefined | Some b \<Rightarrow> (if b then JTrue else JFalse))"

definition truthy_flag :: "bool option \<Rightarrow> bool" where
  "truthy_flag f = (f = Some True)"

text \<open>
  \<open>a || b\<close> on two identifiers: \<open>undefined\<close> and \<open>0\<close> are falsy, so the right operand
  is taken for both.
\<close>

definition js_or_id :: "nat option \<Rightarrow> nat option \<Rightarrow> nat option" where
  "js_or_id a b = (case a of None \<Rightarrow> b | Some x \<Rightarrow> (if x = 0 then b else Some x))"

text \<open>\<open>obj[key]\<close> on an object keyed by identifiers; an undefined key finds nothing.\<close>

definition js_lookup :: "(nat \<rightharpoonup> 'a) \<Rightarrow> nat option \<Rightarrow> 'a option" where
  "js_lookup m k = (case k of None \<Rightarrow> None | Some i \<Rightarrow> m i)"

section \<open>The permission snapshot\<close>

record ws_structure =
  can_create_table :: "bool option"
  can_delete_table :: "bool option"
  can_delete_database :: "bool option"

record collab =
  accessible_tables :: "nat list option"
  collab_can_create_table :: "bool option"
  collab_can_delete_table :: "bool option"

record table_perm =
  permission_level :: "string option"
  can_create_field :: "bool option"
  can_delete_field :: "bool option"

record snapshot =
  is_admin :: bool
  denied_operations :: "string list option"
  workspace_structure :: "ws_structure option"
  database_collaborations :: "(nat \<rightharpoonup> collab) option"
  table_permissions :: "(nat \<rightharpoonup> table_perm) option"
  field_permissions :: "(nat \<rightharpoonup> string) option"

text \<open>
  The context object of an operation: an application, a table or a field. Each of the
  identifiers the evaluator reads may be absent.
\<close>

record op_context =
  database_id :: "nat option"
  table_id :: "nat option"
  field_id :: "nat option"
  ctx_id :: "nat option"

section \<open>AccessControlPermissionManagerType.hasPermission\<close>

text \<open>\<open>permissions.workspace_structure?.can_create_table\<close> and its sibling, as truth values.\<close>

definition ws_can_create_table :: "snapshot \<Rightarrow> bool" where
  "ws_can_create_table p =
     (case workspace_structure p of None \<Rightarrow> False | Some w \<Rightarrow> truthy_flag (can_create_table w))"

definition ws_can_delete_table :: "snapshot \<Rightarrow> bool" where
  "ws_can_delete_table p =
     (case workspace_structure p of None \<Rightarrow> False | Some w \<Rightarrow> truthy_flag (can_delete_table w))"

text \<open>
  Each block of the function is a layer that either returns (\<open>Some\<close>) or falls through
  to the next block (\<open>None\<close>).
\<close>

definition workspace_layer :: "snapshot \<Rightarrow> string \<Rightarrow> jsval option" where
  "workspace_layer p operation =
     (case workspace_structure p of
        None \<Rightarrow> None
      | Some w \<Rightarrow>
          if operation = ''application.create_application''
             \<or> operation = ''workspace.create_application'' then Some JFalse
          else if operation = ''application.delete'' then Some (js_of_flag (can_delete_database w))
          else None)"

definition database_layer :: "snapshot \<Rightarrow> string \<Rightarrow> op_context option \<Rightarrow> jsval option" where
  "database_layer p operation ctx =
     (case ctx of
        None \<Rightarrow> None
      | Some c \<Rightarrow>
         (case database_collaborations p of
            None \<Rightarrow> None
          | Some m \<Rightarrow>
             (case js_lookup m (js_or_id (database_id c) (ctx_id c)) of
                Some cb \<Rightarrow>
                  if operation = ''database.create_table'' then
                    (if ws_can_create_table p then Some JTrue
                     else Some (js_of_flag (collab_can_create_table cb)))
                  else if operation = ''database.table.delete'' then
                    (if ws_can_delete_table p then Some JTrue
                     else Some (js_of_flag (collab_can_delete_table cb)))
                  else None
              | None \<Rightarrow>
                  if operation = ''database.create_table'' then
                    Some (if ws_can_create_table p then JTrue else JFalse)
                  else if operation = ''database.table.delete'' then
                    Some (if ws_can_delete_table p then JTrue else JFalse)
                  else None)))"

definition table_layer :: "snapshot \<Rightarrow> string \<Rightarrow> op_context option \<Rightarrow> jsval option" where
  "table_layer p operation ctx =
     (case ctx of
        None \<Rightarrow> None
      | Some c \<Rightarrow>
         (case table_permissions p of
            None \<Rightarrow> None
          | Some m \<Rightarrow>
             (case js_lookup m (js_or_id (table_id c) (ctx_id c)) of
                None \<Rightarrow> None
              | Some tp \<Rightarrow>
                  if operation = ''database.table.field.create'' then
                    Some (js_of_flag (can_create_field tp))
                  else if operation = ''database.table.field.delete'' then
                    Some (js_of_flag (can_delete_field tp))
                  else if (operation = ''database.table.update''
                           \<or> operation = ''database.table.row.create''
                           \<or> operation = ''database.table.row.update'')
                          \<and> permission_level tp = Some ''read_only'' then Some JFalse
                  else None)))"

definition field_layer :: "snapshot \<Rightarrow> string \<Rightarrow> op_context option \<Rightarrow> jsval option" where
  "field_layer p operation ctx =
     (case ctx of
        None \<Rightarrow> None
      | Some c \<Rightarrow>
         (case field_permissions p of
            None \<Rightarrow> None
          | Some m \<Rightarrow>
             (case js_lookup m (js_or_id (field_id c) (ctx_id c)) of
                None \<Rightarrow> None
              | Some fp \<Rightarrow>
                  if fp = [] then None
                  else if fp = ''hidden'' \<and> operation = ''database.table.field.read'' then
                    Some JFalse
                  else if (fp = ''read_only'' \<or> fp = ''hidden'')
                          \<and> operation = ''database.table.field.update'' then Some JFalse
                  else None)))"

text \<open>
  \<open>permissions.denied_operations && permissions.denied_operations.includes(operation)\<close>
\<close>

definition in_denied_operations :: "snapshot \<Rightarrow> string \<Rightarrow> bool" where
  "in_denied_operations p operation =
     (case denied_operations p of None \<Rightarrow> False | Some ds \<Rightarrow> operation \<in> set ds)"

definition hasPermission ::
  "snapshot option \<Rightarrow> string \<Rightarrow> op_context option \<Rightarrow> nat \<Rightarrow> jsval" where
  "hasPermission permissions operation ctx workspaceId =
     (case permissions of
        None \<Rightarrow> JNull
      | Some p \<Rightarrow>
          if is_admin p then JTrue
          else if in_denied_operations p operation then JFalse
          else (case workspace_layer p operation of
                  Some r \<Rightarrow> r
                | None \<Rightarrow>
                   (case database_layer p operation ctx of
                      Some r \<Rightarrow> r
                    | None \<Rightarrow>
                       (case table_layer p operation ctx of
                          Some r \<Rightarrow> r
                        | None \<Rightarrow>
                           (case field_layer p operation ctx of
                              Some r \<Rightarrow> r
                            | None \<Rightarrow> JNull)))))"

text \<open>
  Whether the table record that the table block of \<open>hasPermission\<close> looks up for a context
  exists and has \<open>permission_level === 'read_only'\<close>.
\<close>

definition table_read_only :: "snapshot \<Rightarrow> op_context \<Rightarrow> bool" where
  "table_read_only p c =
     (case table_permissions p of
        None \<Rightarrow> False
      | Some m \<Rightarrow>
         (case js_lookup m (js_or_id (table_id c) (ctx_id c)) of
            None \<Rightarrow> False
          | Some tp \<Rightarrow> permission_level tp = Some ''read_only''))"

section \<open>SidebarWithWorkspace.hasAccessToDatabase\<close>

text \<open>
  The selected workspace carries \<open>_.permissionsLoaded\<close> and \<open>_.permissions\<close>, a list of
  one object per permission manager, each with a \<open>name\<close> and its \<open>permissions\<close> object.
\<close>

record manager_entry =
  name :: string
  permissions :: "snapshot option"

record workspace =
  permissionsLoaded :: bool
  ws_permissions :: "manager_entry list option"

definition hasAccessToDatabase :: "workspace option \<Rightarrow> nat \<Rightarrow> jsval" where
  "hasAccessToDatabase selectedWorkspace database_ident =
     (case selectedWorkspace of
        None \<Rightarrow> JTrue
      | Some w \<Rightarrow>
          if \<not> permissionsLoaded w then JTrue
          else (case ws_permissions w of
                  None \<Rightarrow> JTrue
                | Some ps \<Rightarrow>
                    if length ps = 0 then JTrue
                    else (case find (\<lambda>e. name e = ''access_control'') ps of
                            None \<Rightarrow> JTrue
                          | Some e \<Rightarrow>
                             (case permissions e of
                                None \<Rightarrow> JTrue
                              | Some perms \<Rightarrow>
                                  if is_admin perms then JTrue
                                  else (case database_collaborations perms of
                                          None \<Rightarrow> JFalse
                                        | Some m \<Rightarrow>
                                           (case m database_ident of
                                              None \<Rightarrow> JFalse
                                            | Some cb \<Rightarrow>
                                               (case accessible_tables cb of
                                                  None \<Rightarrow> JUndefined
                                                | Some ts \<Rightarrow>
                                                    if length ts > 0 then JTrue
                                                    else JFalse)))))))"

section \<open>PermissionCache\<close>

text \<open>
  The cache is a JavaScript \<open>Map\<close> from key strings to entries, which keeps its keys in
  insertion order, and an array \<open>accessOrder\<close> of keys, least recently used first.
  Times are clock readings of \<open>Date.now()\<close> in milliseconds, passed in by the caller.
  The methods \<open>get\<close> and \<open>set\<close> are \<open>cache_get\<close> and \<open>cache_set\<close> here, the constructor
  is \<open>PermissionCache\<close>, and \<open>_cleanup\<close>, \<open>_generateKey\<close>, \<open>_parseKey\<close> and
  \<open>_updateAccessOrder\<close> lose their underscore.
\<close>

record 'v entry =
  entry_value :: 'v
  timestamp :: int

record 'v permission_cache =
  ttl :: int
  maxSize :: int
  cache :: "(string \<times> 'v entry) list"
  accessOrder :: "string list"

record cache_options =
  opt_ttl :: "int option"
  opt_maxSize :: "int option"

definition DEFAULT_CACHE_TTL :: int where
  "DEFAULT_CACHE_TTL = 5 * 60 * 1000"

definition DEFAULT_MAX_CACHE_SIZE :: int where
  "DEFAULT_MAX_CACHE_SIZE = 1000"

text \<open>\<open>x || d\<close> on an optional number: \<open>undefined\<close> and \<open>0\<close> are falsy.\<close>

definition js_or_default :: "int option \<Rightarrow> int \<Rightarrow> int" where
  "js_or_default x d = (case x of None \<Rightarrow> d | Some n \<Rightarrow> (if n = 0 then d else n))"

definition PermissionCache :: "cache_options \<Rightarrow> 'v permission_cache" where
  "PermissionCache options =
     \<lparr> ttl = js_or_default (opt_ttl options) DEFAULT_CACHE_TTL,
       maxSize = js_or_default (opt_maxSize options) DEFAULT_MAX_CACHE_SIZE,
       cache = [],
       accessOrder = [] \<rparr>"

subsection \<open>Keys\<close>

record key_params =
  workspaceId :: nat
  userId :: nat
  objectType :: string
  objectId :: nat
  operation :: string

definition digit_char :: "nat \<Rightarrow> char" where
  "digit_char d = char_of (48 + d)"

text \<open>A non-negative integer identifier inside a template literal: its decimal digits.\<close>

fun show_nat :: "nat \<Rightarrow> string" where
  "show_nat n = (if n < 10 then [digit_char n] else show_nat (n div 10) @ [digit_char (n mod 10)])"

declare show_nat.simps [simp del]

definition generateKey :: "key_params \<Rightarrow> string" where
  "generateKey p =
     show_nat (workspaceId p) @ '':'' @ show_nat (userId p) @ '':'' @ objectType p @ '':''
       @ show_nat (objectId p) @ '':'' @ operation p"

text \<open>\<open>key.split(':')\<close>: the empty string splits into one empty part.\<close>

fun split_on :: "char \<Rightarrow> string \<Rightarrow> string list" where
  "split_on c [] = [[]]"
| "split_on c (x # xs) =
     (if x = c then [] # split_on c xs
      else (case split_on c xs of [] \<Rightarrow> [[x]] | w # ws \<Rightarrow> (x # w) # ws))"

text \<open>
  \<open>parseInt\<close> without a radix: leading white space is skipped, then an optional sign, then
  an optional \<open>0x\<close> prefix that selects radix 16, then the longest run of digits of the
  radix; no digit at all gives \<open>NaN\<close> (\<open>None\<close>). Characters are bytes here, so only the
  ASCII white space characters are skipped.
\<close>

definition is_js_space :: "char \<Rightarrow> bool" where
  "is_js_space c = (let n = (of_char c :: nat) in n = 32 \<or> (9 \<le> n \<and> n \<le> 13))"

definition digit_val :: "char \<Rightarrow> nat option" where
  "digit_val c =
     (let n = (of_char c :: nat) in
      if 48 \<le> n \<and> n \<le> 57 then Some (n - 48)
      else if 97 \<le> n \<and> n \<le> 122 then Some (n - 87)
      else if 65 \<le> n \<and> n \<le> 90 then Some (n - 55)
      else None)"

definition is_digit_of :: "nat \<Rightarrow> char \<Rightarrow> bool" where
  "is_digit_of radix c = (case digit_val c of None \<Rightarrow> False | Some d \<Rightarrow> d < radix)"

definition digits_value :: "nat \<Rightarrow> string \<Rightarrow> nat" where
  "digits_value radix ds = foldl (\<lambda>acc c. acc * radix + (case digit_val c of None \<Rightarrow> 0 | Some d \<Rightarrow> d)) 0 ds"

definition parse_digits :: "nat \<Rightarrow> string \<Rightarrow> nat option" where
  "parse_digits radix s =
     (let ds = takeWhile (is_digit_of radix) s in
      if ds = [] then None else Some (digits_value radix ds))"

definition parse_unsigned :: "string \<Rightarrow> nat option" where
  "parse_unsigned s =
     (case s of
        a # b # rest \<Rightarrow>
          if a = CHR ''0'' \<and> (b = CHR ''x'' \<or> b = CHR ''X'') then parse_digits 16 rest
          else parse_digits 10 s
      | _ \<Rightarrow> parse_digits 10 s)"

definition parseInt :: "string \<Rightarrow> int option" where
  "parseInt s =
     (case dropWhile is_js_space s of
        [] \<Rightarrow> None
      | c # rest \<Rightarrow>
          if c = CHR ''-'' then map_option (\<lambda>n. - int n) (parse_unsigned rest)
          else if c = CHR ''+'' then map_option int (parse_unsigned rest)
          else map_option int (parse_unsigned (c # rest)))"

text \<open>
  The destructuring \<open>[workspaceId, userId, objectType, objectId, operation] = key.split(':')\<close>
  takes the first five parts; a part that is missing is \<open>undefined\<close>, and \<open>parseInt\<close> of
  \<open>undefined\<close> is \<open>NaN\<close>.
\<close>

record parsed_key =
  p_workspaceId :: "int option"
  p_userId :: "int option"
  p_objectType :: "string option"
  p_objectId :: "int option"
  p_operation :: "string option"

definition nth_part :: "string list \<Rightarrow> nat \<Rightarrow> string option" where
  "nth_part parts i = (if i < length parts then Some (parts ! i) else None)"

definition parseInt_part :: "string option \<Rightarrow> int option" where
  "parseInt_part x = (case x of None \<Rightarrow> None | Some s \<Rightarrow> parseInt s)"

definition parseKey :: "string \<Rightarrow> parsed_key" where
  "parseKey key =
     (let parts = split_on CHR '':'' key in
      \<lparr> p_workspaceId = parseInt_part (nth_part parts 0),
        p_userId = parseInt_part (nth_part parts 1),
        p_objectType = nth_part parts 2,
        p_objectId = parseInt_part (nth_part parts 3),
        p_operation = nth_part parts 4 \<rparr>)"

subsection \<open>Map and array primitives\<close>

definition map_has :: "string \<Rightarrow> (string \<times> 'a) list \<Rightarrow> bool" where
  "map_has k m = (k \<in> set (map fst m))"

text \<open>\<open>Map.set\<close>: an existing key keeps its position; a new key is appended.\<close>

definition map_set :: "string \<Rightarrow> 'a \<Rightarrow> (string \<times> 'a) list \<Rightarrow> (string \<times> 'a) list" where
  "map_set k v m =
     (if map_has k m then map (\<lambda>(k', v'). if k' = k then (k', v) else (k', v')) m
      else m @ [(k, v)])"

definition map_delete :: "string \<Rightarrow> (string \<times> 'a) list \<Rightarrow> (string \<times> 'a) list" where
  "map_delete k m = filter (\<lambda>(k', v'). k' \<noteq> k) m"

text \<open>
  \<open>index = accessOrder.indexOf(key); if (index > -1) accessOrder.splice(index, 1)\<close>
  removes the first occurrence of the key, which is \<open>remove1\<close>.
\<close>

definition updateAccessOrder :: "string \<Rightarrow> string list \<Rightarrow> string list" where
  "updateAccessOrder key order = remove1 key order @ [key]"

text \<open>\<open>this.cache.delete(key)\<close> followed by the removal of the key from \<open>accessOrder\<close>.\<close>

definition drop_key :: "string \<Rightarrow> 'v permission_cache \<Rightarrow> 'v permission_cache" where
  "drop_key key s =
     s\<lparr> cache := map_delete key (cache s), accessOrder := remove1 key (accessOrder s) \<rparr>"

subsection \<open>Cleanup, get and set\<close>

definition expired :: "int \<Rightarrow> int \<Rightarrow> 'v entry \<Rightarrow> bool" where
  "expired now t e = (now - timestamp e > t)"

text \<open>The first loop of \<open>_cleanup\<close>, over the entries the map holds when it starts.\<close>

definition expire_entries :: "int \<Rightarrow> 'v permission_cache \<Rightarrow> 'v permission_cache" where
  "expire_entries now s =
     fold (\<lambda>(key, e) s'. if expired now (ttl s) e then drop_key key s' else s') (cache s) s"

text \<open>
  The second loop: while the map holds more than \<open>maxSize\<close> entries and \<open>accessOrder\<close> is
  not empty, shift the oldest key and delete it.
\<close>

fun evict_lru ::
  "int \<Rightarrow> (string \<times> 'a) list \<Rightarrow> string list \<Rightarrow> (string \<times> 'a) list \<times> string list" where
  "evict_lru m c [] = (c, [])"
| "evict_lru m c (oldestKey # rest) =
     (if int (length c) > m then evict_lru m (map_delete oldestKey c) rest
      else (c, oldestKey # rest))"

definition cleanup :: "int \<Rightarrow> 'v permission_cache \<Rightarrow> 'v permission_cache" where
  "cleanup now s =
     (let s1 = expire_entries now s;
          (c, order) = evict_lru (maxSize s1) (cache s1) (accessOrder s1)
      in s1\<lparr> cache := c, accessOrder := order \<rparr>)"

text \<open>\<open>get\<close> returns the value or \<open>undefined\<close> (\<open>None\<close>), and the cache after the call.\<close>

definition cache_get ::
  "key_params \<Rightarrow> int \<Rightarrow> 'v permission_cache \<Rightarrow> 'v option \<times> 'v permission_cache" where
  "cache_get params now s =
     (let key = generateKey params in
      case map_of (cache s) key of
        None \<Rightarrow> (None, s)
      | Some e \<Rightarrow>
          if expired now (ttl s) e then (None, drop_key key s)
          else (Some (entry_value e),
                s\<lparr> accessOrder := updateAccessOrder key (accessOrder s) \<rparr>))"

text \<open>
  \<open>set\<close> reads the clock twice: once inside \<open>_cleanup\<close> and once for the time stamp of
  the new entry.
\<close>

definition cache_set ::
  "key_params \<Rightarrow> 'v \<Rightarrow> int \<Rightarrow> int \<Rightarrow> 'v permission_cache \<Rightarrow> 'v permission_cache" where
  "cache_set params v now_cleanup now s =
     (let key = generateKey params;
          s1 = cleanup now_cleanup s
      in s1\<lparr> cache := map_set key \<lparr> entry_value = v, timestamp = now \<rparr> (cache s1),
              accessOrder := updateAccessOrder key (accessOrder s1) \<rparr>)"

subsection \<open>Invalidation by field\<close>

definition is_field_key :: "int \<Rightarrow> string \<Rightarrow> bool" where
  "is_field_key fieldId key =
     (let parsed = parseKey key in
      p_objectType parsed = Some ''field'' \<and> p_objectId parsed = Some fieldId)"

definition invalidateByField :: "int \<Rightarrow> 'v permission_cache \<Rightarrow> 'v permission_cache" where
  "invalidateByField fieldId s =
     (let keysToDelete = filter (is_field_key fieldId) (map fst (cache s))
      in fold drop_key keysToDelete s)"

subsection \<open>Well-formed cache states\<close>

text \<open>
  A \<open>Map\<close> holds each key once, and every method keeps \<open>accessOrder\<close> a duplicate-free
  listing of the keys of the map.
\<close>

definition cache_inv :: "'v permission_cache \<Rightarrow> bool" where
  "cache_inv s =
     (distinct (map fst (cache s)) \<and> distinct (accessOrder s)
      \<and> set (accessOrder s) = set (map fst (cache s)))"

section \<open>Condition rule engine\<close>

text \<open>
  Modelled from the spec: the condition rule engine (specification section 4.2) runs in
  the backend; the front-end sources only create, list and toggle rules through the REST
  service. The data model below follows specification section 3: the vocabulary of row
  permission levels, the three condition types, the five operators of a field match, the
  reserved logic operator, and a rule with its configuration, level, priority and
  activity flag.
\<close>

datatype row_level = Invisible | ReadOnly | Editable

datatype condition_type = Creator | FieldMatch | Collaborator

datatype match_operator = Equals | NotEquals | Contains | GreaterThan | LessThan

datatype logic_operator = LogicAnd | LogicOr

datatype cell_value = NumberValue int | TextValue string | UsersValue "nat list"

record condition_config =
  config_field_id :: "nat option"
  config_operator :: "match_operator option"
  config_value :: "cell_value option"

record condition_rule =
  rule_id :: nat
  condition_type :: condition_type
  condition_config :: condition_config
  rule_permission_level :: row_level
  priority :: int
  logic_operator :: logic_operator
  is_active :: bool

record table_row =
  created_by :: "nat option"
  row_values :: "(nat \<times> cell_value) list"

text \<open>
  Modelled from the spec: the string semantics of the operators \<open>contains\<close>,
  \<open>greater_than\<close> and \<open>less_than\<close>: containment is the occurrence of the comparison
  text inside the field text, the order is the lexicographic order of the characters.
\<close>

fun starts_with :: "string \<Rightarrow> string \<Rightarrow> bool" where
  "starts_with xs [] = True"
| "starts_with [] (y # ys) = False"
| "starts_with (x # xs) (y # ys) = (x = y \<and> starts_with xs ys)"

fun contains_text :: "string \<Rightarrow> string \<Rightarrow> bool" where
  "contains_text [] ys = (ys = [])"
| "contains_text (x # xs) ys = (starts_with (x # xs) ys \<or> contains_text xs ys)"

fun text_less :: "string \<Rightarrow> string \<Rightarrow> bool" where
  "text_less [] [] = False"
| "text_less [] (y # ys) = True"
| "text_less (x # xs) [] = False"
| "text_less (x # xs) (y # ys) =
     ((of_char x :: nat) < of_char y \<or> (x = y \<and> text_less xs ys))"

text \<open>
  Modelled from the spec: \<open>row[field_id] <operator> value\<close> "with numeric/string semantics
  inferred from the field's value type": a number is compared with a number, a text
  with a text; any other pairing does not match.
\<close>

definition compare_values :: "match_operator \<Rightarrow> cell_value \<Rightarrow> cell_value \<Rightarrow> bool" where
  "compare_values opr fv cv =
     (case (fv, cv) of
        (NumberValue a, NumberValue b) \<Rightarrow>
          (case opr of Equals \<Rightarrow> a = b | NotEquals \<Rightarrow> a \<noteq> b | Contains \<Rightarrow> False
           | GreaterThan \<Rightarrow> a > b | LessThan \<Rightarrow> a < b)
      | (TextValue a, TextValue b) \<Rightarrow>
          (case opr of Equals \<Rightarrow> a = b | NotEquals \<Rightarrow> a \<noteq> b | Contains \<Rightarrow> contains_text a b
           | GreaterThan \<Rightarrow> text_less b a | LessThan \<Rightarrow> text_less a b)
      | _ \<Rightarrow> False)"

text \<open>
  Modelled from the spec: step 1 of the matching algorithm. A creator rule matches when
  the row's creator is the acting user; a field-match rule when the comparison holds on
  the row's value of the configured field; a collaborator rule when the acting user is
  among the users of the configured field. A rule whose field is missing from the row
  (a dangling reference) does not match.
\<close>

definition rule_matches :: "condition_rule \<Rightarrow> table_row \<Rightarrow> nat \<Rightarrow> bool" where
  "rule_matches rule row user =
     (let cfg = condition_config rule in
      case condition_type rule of
        Creator \<Rightarrow> created_by row = Some user
      | FieldMatch \<Rightarrow>
          (case (config_field_id cfg, config_operator cfg, config_value cfg) of
             (Some f, Some opr, Some cv) \<Rightarrow>
               (case map_of (row_values row) f of
                  None \<Rightarrow> False
                | Some fv \<Rightarrow> compare_values opr fv cv)
           | _ \<Rightarrow> False)
      | Collaborator \<Rightarrow>
          (case config_field_id cfg of
             None \<Rightarrow> False
           | Some f \<Rightarrow>
               (case map_of (row_values row) f of
                  Some (UsersValue us) \<Rightarrow> user \<in> set us
                | _ \<Rightarrow> False)))"

text \<open>
  Modelled from the spec: step 2, "select the one with the highest priority"; the tie
  between equal priorities, which the specification leaves to the implementation, goes
  to the lowest rule id, the specification's own example.
\<close>

definition outranks :: "condition_rule \<Rightarrow> condition_rule \<Rightarrow> bool" where
  "outranks a b =
     (priority a > priority b \<or> (priority a = priority b \<and> rule_id a < rule_id b))"

fun select_rule :: "condition_rule list \<Rightarrow> condition_rule option" where
  "select_rule [] = None"
| "select_rule (r # rs) =
     (case select_rule rs of
        None \<Rightarrow> Some r
      | Some best \<Rightarrow> (if outranks best r then Some best else Some r))"

text \<open>
  Modelled from the spec: steps 1, 2 and 4 together. The active rules that match are
  collected, the selected rule's level is the row-level decision, and no matching rule
  gives no opinion (\<open>None\<close>).
\<close>

definition matching_rules ::
  "condition_rule list \<Rightarrow> table_row \<Rightarrow> nat \<Rightarrow> condition_rule list" where
  "matching_rules rules row user =
     filter (\<lambda>r. is_active r \<and> rule_matches r row user) rules"

definition evaluate_rules ::
  "condition_rule list \<Rightarrow> table_row \<Rightarrow> nat \<Rightarrow> row_level option" where
  "evaluate_rules rules row user =
     map_option rule_permission_level (select_rule (matching_rules rules row user))"

section \<open>Facts about the cache primitives\<close>

lemma map_fst_map_delete: "map fst (map_delete k m) = removeAll k (map fst m)"
  unfolding map_delete_def by (induction m) auto

lemma not_map_has_map_delete: "\<not> map_has k (map_delete k m)"
  by (simp add: map_has_def map_fst_map_delete)

lemma map_of_map_set_same: "map_of (map_set k v m) k = Some v"
proof (cases "map_has k m")
  case True
  then have "k \<in> set (map fst m)" by (simp add: map_has_def)
  then have "map_of (map (\<lambda>(k', v'). if k' = k then (k', v) else (k', v')) m) k = Some v"
    by (induction m) auto
  with True show ?thesis by (simp add: map_set_def)
next
  case False
  then have "map_of m k = None" by (simp add: map_has_def map_of_eq_None_iff)
  with False show ?thesis by (simp add: map_set_def map_add_def)
qed

lemma map_fst_map_set:
  "map fst (map_set k v m) = (if map_has k m then map fst m else map fst m @ [k])"
proof -
  have "map fst (map (\<lambda>(k', v'). if k' = k then (k', v) else (k', v')) m) = map fst m"
    by (induction m) auto
  then show ?thesis by (simp add: map_set_def)
qed

lemma ttl_drop_key [simp]: "ttl (drop_key k s) = ttl s"
  by (simp add: drop_key_def)

lemma maxSize_drop_key [simp]: "maxSize (drop_key k s) = maxSize s"
  by (simp add: drop_key_def)

lemma cache_inv_drop_key: "cache_inv s \<Longrightarrow> cache_inv (drop_key k s)"
  by (auto simp add: cache_inv_def drop_key_def map_fst_map_delete distinct_removeAll)

lemma expire_fold_props:
  "ttl (fold (\<lambda>(key, e) s'. if P e then drop_key key s' else s') xs s) = ttl s
   \<and> maxSize (fold (\<lambda>(key, e) s'. if P e then drop_key key s' else s') xs s) = maxSize s
   \<and> (cache_inv s \<longrightarrow> cache_inv (fold (\<lambda>(key, e) s'. if P e then drop_key key s' else s') xs s))"
  by (induction xs arbitrary: s) (auto simp add: cache_inv_drop_key)

lemma ttl_expire_entries [simp]: "ttl (expire_entries now s) = ttl s"
  using expire_fold_props [of "expired now (ttl s)" "cache s" s] by (simp add: expire_entries_def)

lemma maxSize_expire_entries [simp]: "maxSize (expire_entries now s) = maxSize s"
  using expire_fold_props [of "expired now (ttl s)" "cache s" s] by (simp add: expire_entries_def)

lemma cache_inv_expire_entries: "cache_inv s \<Longrightarrow> cache_inv (expire_entries now s)"
  using expire_fold_props [of "expired now (ttl s)" "cache s" s] by (simp add: expire_entries_def)

lemma evict_lru_inv:
  "distinct (map fst c) \<Longrightarrow> distinct order \<Longrightarrow> set order = set (map fst c) \<Longrightarrow>
   evict_lru m c order = (c', order') \<Longrightarrow>
   distinct (map fst c') \<and> distinct order' \<and> set order' = set (map fst c')"
proof (induction order arbitrary: c)
  case Nil
  then show ?case by auto
next
  case (Cons k rest)
  show ?case
  proof (cases "int (length c) > m")
    case True
    have d: "distinct (map fst (map_delete k c))"
      using Cons.prems(1) by (simp add: map_fst_map_delete distinct_removeAll)
    have s: "set rest = set (map fst (map_delete k c))"
      using Cons.prems(2,3) by (auto simp add: map_fst_map_delete)
    from Cons.prems(4) True have "evict_lru m (map_delete k c) rest = (c', order')" by simp
    with Cons.IH [OF d _ s] Cons.prems(2) show ?thesis by simp
  next
    case False
    with Cons.prems(4) have "c' = c" and "order' = k # rest" by auto
    with Cons.prems(1,2,3) show ?thesis by simp
  qed
qed

lemma ttl_cleanup [simp]: "ttl (cleanup now s) = ttl s"
  by (simp add: cleanup_def Let_def split: prod.splits)

lemma maxSize_cleanup [simp]: "maxSize (cleanup now s) = maxSize s"
  by (simp add: cleanup_def Let_def split: prod.splits)

lemma cache_inv_cleanup: "cache_inv s \<Longrightarrow> cache_inv (cleanup now s)"
proof -
  assume "cache_inv s"
  then have i: "cache_inv (expire_entries now s)" by (rule cache_inv_expire_entries)
  obtain c order where e: "evict_lru (maxSize (expire_entries now s)) (cache (expire_entries now s))
      (accessOrder (expire_entries now s)) = (c, order)" by (cases "evict_lru (maxSize (expire_entries now s)) (cache (expire_entries now s))
      (accessOrder (expire_entries now s))")
  from i have "distinct (map fst c) \<and> distinct order \<and> set order = set (map fst c)"
    using evict_lru_inv [OF _ _ _ e] by (simp add: cache_inv_def)
  with e show ?thesis by (simp add: cleanup_def Let_def cache_inv_def)
qed

lemma ttl_cache_set [simp]: "ttl (cache_set params v tc t0 s) = ttl s"
  by (simp add: cache_set_def Let_def)

lemma maxSize_cache_set [simp]: "maxSize (cache_set params v tc t0 s) = maxSize s"
  by (simp add: cache_set_def Let_def)

lemma cache_inv_cache_set: "cache_inv s \<Longrightarrow> cache_inv (cache_set params v tc t0 s)"
proof -
  assume "cache_inv s"
  then have "cache_inv (cleanup tc s)" by (rule cache_inv_cleanup)
  then show ?thesis
    by (auto simp add: cache_set_def Let_def cache_inv_def map_fst_map_set updateAccessOrder_def
        map_has_def)
qed

lemma cache_inv_touch:
  assumes "cache_inv s" and "map_of (cache s) k = Some e"
  shows "cache_inv (s\<lparr> accessOrder := updateAccessOrder k (accessOrder s) \<rparr>)"
proof -
  from assms(2) have "k \<in> set (map fst (cache s))"
    by (metis map_of_eq_None_iff option.distinct(1) set_map)
  with assms(1) show ?thesis
    by (auto simp add: cache_inv_def updateAccessOrder_def)
qed

lemma cache_inv_cache_get: "cache_inv s \<Longrightarrow> cache_inv (snd (cache_get params now s))"
  by (simp add: cache_get_def Let_def cache_inv_drop_key cache_inv_touch split: option.splits)

lemma cache_inv_new: "cache_inv (PermissionCache options)"
  by (simp add: cache_inv_def PermissionCache_def)

text \<open>
  The size of the map after \<open>set\<close>: a cache within its capacity and without expired
  entries gains the new key and loses nothing, and a well-formed cache never holds more
  than \<open>maxSize + 1\<close> entries afterwards.
\<close>

lemma expire_fold_none:
  "\<forall>(k, e) \<in> set xs. \<not> P e \<Longrightarrow>
   fold (\<lambda>(key, e) s'. if P e then drop_key key s' else s') xs s = s"
  by (induction xs arbitrary: s) auto

lemma expire_entries_none:
  "\<forall>(k, e) \<in> set (cache s). \<not> expired now (ttl s) e \<Longrightarrow> expire_entries now s = s"
  by (simp add: expire_entries_def expire_fold_none)

lemma evict_lru_within: "int (length c) \<le> m \<Longrightarrow> evict_lru m c order = (c, order)"
  by (cases order) simp_all

lemma cleanup_within:
  assumes "\<forall>(k, e) \<in> set (cache s). \<not> expired now (ttl s) e"
    and "int (length (cache s)) \<le> maxSize s"
  shows "cleanup now s = s"
  using assms by (simp add: cleanup_def expire_entries_none evict_lru_within)

lemma cache_set_overfills:
  assumes "\<forall>(k, e) \<in> set (cache s). \<not> expired tc (ttl s) e"
    and "int (length (cache s)) \<le> maxSize s"
    and "\<not> map_has (generateKey params) (cache s)"
  shows "cache (cache_set params v tc t0 s)
         = cache s @ [(generateKey params, \<lparr> entry_value = v, timestamp = t0 \<rparr>)]"
  using assms by (simp add: cache_set_def Let_def cleanup_within map_set_def)

lemma evict_lru_bound:
  "distinct (map fst c) \<Longrightarrow> distinct order \<Longrightarrow> set order = set (map fst c) \<Longrightarrow>
   evict_lru m c order = (c', order') \<Longrightarrow> int (length c') \<le> max m 0"
proof (induction order arbitrary: c)
  case Nil
  then have "c = []" by simp
  with Nil show ?case by simp
next
  case (Cons k rest)
  show ?case
  proof (cases "int (length c) > m")
    case True
    have d: "distinct (map fst (map_delete k c))"
      using Cons.prems(1) by (simp add: map_fst_map_delete distinct_removeAll)
    have s: "set rest = set (map fst (map_delete k c))"
      using Cons.prems(2,3) by (auto simp add: map_fst_map_delete)
    from Cons.prems(4) True have "evict_lru m (map_delete k c) rest = (c', order')" by simp
    with Cons.IH [OF d _ s] Cons.prems(2) show ?thesis by simp
  next
    case False
    with Cons.prems(4) have "c' = c" by simp
    with False show ?thesis by simp
  qed
qed

lemma length_map_set: "length (map_set k v m) \<le> length m + 1"
  by (simp add: map_set_def)

lemma cache_set_bound:
  assumes "cache_inv s"
  shows "int (length (cache (cache_set params v tc t0 s))) \<le> max (maxSize s) 0 + 1"
proof -
  let ?s1 = "expire_entries tc s"
  have i: "cache_inv ?s1" using assms by (rule cache_inv_expire_entries)
  obtain c order where e: "evict_lru (maxSize ?s1) (cache ?s1) (accessOrder ?s1) = (c, order)"
    by (cases "evict_lru (maxSize ?s1) (cache ?s1) (accessOrder ?s1)")
  from i have "int (length c) \<le> max (maxSize ?s1) 0"
    using evict_lru_bound [OF _ _ _ e] by (simp add: cache_inv_def)
  then have b: "int (length c) \<le> max (maxSize s) 0" by simp
  have "cache (cache_set params v tc t0 s)
        = map_set (generateKey params) \<lparr> entry_value = v, timestamp = t0 \<rparr> c"
    using e by (simp add: cache_set_def cleanup_def Let_def)
  then show ?thesis
    using b length_map_set [of "generateKey params" "\<lparr> entry_value = v, timestamp = t0 \<rparr>" c]
    by simp
qed

text \<open>Keys: \<open>_parseKey\<close> reads back what \<open>_generateKey\<close> wrote.\<close>

lemma digit_val_digit_char: "d < 10 \<Longrightarrow> digit_val (digit_char d) = Some d"
  by (simp add: digit_val_def digit_char_def Let_def)

lemma of_char_digit_char: "d < 10 \<Longrightarrow> (of_char (digit_char d) :: nat) = 48 + d"
  by (simp add: digit_char_def)

lemma digit_char_plain:
  assumes "d < 10"
  shows "is_digit_of 10 (digit_char d)" and "\<not> is_js_space (digit_char d)"
    and "digit_char d \<noteq> CHR '':''" and "digit_char d \<noteq> CHR ''-''" and "digit_char d \<noteq> CHR ''+''"
    and "digit_char d \<noteq> CHR ''x''" and "digit_char d \<noteq> CHR ''X''"
proof -
  show "is_digit_of 10 (digit_char d)"
    using assms by (simp add: is_digit_of_def digit_val_digit_char)
  show "\<not> is_js_space (digit_char d)"
    using assms by (simp add: is_js_space_def Let_def of_char_digit_char)
  have ne: "\<And>c. (of_char c :: nat) \<notin> {48..57} \<Longrightarrow> digit_char d \<noteq> c"
    using assms of_char_digit_char [of d] by auto
  show "digit_char d \<noteq> CHR '':''" by (rule ne) simp
  show "digit_char d \<noteq> CHR ''-''" by (rule ne) simp
  show "digit_char d \<noteq> CHR ''+''" by (rule ne) simp
  show "digit_char d \<noteq> CHR ''x''" by (rule ne) simp
  show "digit_char d \<noteq> CHR ''X''" by (rule ne) simp
qed

lemma show_nat_chars:
  "show_nat n \<noteq> [] \<and> (\<forall>c \<in> set (show_nat n). \<exists>d < 10. c = digit_char d)"
proof (induction n rule: show_nat.induct)
  case (1 n)
  show ?case
  proof (cases "n < 10")
    case True
    then have e: "show_nat n = [digit_char n]" by (subst show_nat.simps) simp
    from True show ?thesis unfolding e by auto
  next
    case False
    have m: "\<exists>d<10. digit_char (n mod 10) = digit_char d"
      by (rule exI [of _ "n mod 10"]) simp
    have e: "show_nat n = show_nat (n div 10) @ [digit_char (n mod 10)]"
      using False by (subst show_nat.simps) simp
    from False 1 m show ?thesis
      unfolding e by auto
  qed
qed

lemma digits_value_snoc:
  "digits_value r (ds @ [c]) = digits_value r ds * r + (case digit_val c of None \<Rightarrow> 0 | Some d \<Rightarrow> d)"
  by (simp add: digits_value_def)

lemma digits_value_single: "digits_value r [c] = (case digit_val c of None \<Rightarrow> 0 | Some d \<Rightarrow> d)"
  by (simp add: digits_value_def)

lemma show_nat_small: "n < 10 \<Longrightarrow> show_nat n = [digit_char n]"
  by (subst show_nat.simps) simp

lemma show_nat_large: "\<not> n < 10 \<Longrightarrow> show_nat n = show_nat (n div 10) @ [digit_char (n mod 10)]"
  by (subst show_nat.simps) simp

lemma digits_value_show_nat: "digits_value 10 (show_nat n) = n"
proof (induction n rule: show_nat.induct)
  case (1 n)
  show ?case
  proof (cases "n < 10")
    case True
    then show ?thesis
      by (simp only: show_nat_small digits_value_single digit_val_digit_char option.case)
  next
    case False
    have m: "n mod 10 < 10" by simp
    have "digits_value 10 (show_nat n) =
          digits_value 10 (show_nat (n div 10)) * 10 + n mod 10"
      by (simp only: show_nat_large [OF False] digits_value_snoc digit_val_digit_char [OF m] option.case)
    also have "\<dots> = (n div 10) * 10 + n mod 10"
      using 1 [OF False] by (simp only:)
    also have "\<dots> = n" by simp
    finally show ?thesis .
  qed
qed

lemma show_nat_char_props:
  assumes "c \<in> set (show_nat n)"
  shows "is_digit_of 10 c \<and> \<not> is_js_space c \<and> c \<noteq> CHR '':'' \<and> c \<noteq> CHR ''-''
         \<and> c \<noteq> CHR ''+'' \<and> c \<noteq> CHR ''x'' \<and> c \<noteq> CHR ''X''"
proof -
  have "\<forall>c \<in> set (show_nat n). \<exists>d < 10. c = digit_char d"
    using show_nat_chars [of n] by (rule conjunct2)
  then have "\<exists>d < 10. c = digit_char d" using assms by (rule bspec)
  then obtain d where d: "d < 10" and c: "c = digit_char d" by (elim exE conjE)
  show ?thesis
    unfolding c using digit_char_plain [OF d] by (intro conjI)
qed

lemma show_nat_not_Nil: "show_nat n \<noteq> []"
  using show_nat_chars [of n] by (rule conjunct1)

lemma parse_digits_show_nat: "parse_digits 10 (show_nat n) = Some n"
proof -
  have "\<And>c. c \<in> set (show_nat n) \<Longrightarrow> is_digit_of 10 c"
    using show_nat_char_props by (rule conjunct1)
  then have "takeWhile (is_digit_of 10) (show_nat n) = show_nat n"
    by (simp add: takeWhile_eq_all_conv)
  then show ?thesis
    by (simp only: parse_digits_def Let_def show_nat_not_Nil digits_value_show_nat if_False)
qed

lemma parse_unsigned_show_nat: "parse_unsigned (show_nat n) = Some n"
proof (cases "show_nat n")
  case Nil
  then show ?thesis using show_nat_not_Nil [of n] by (simp only:)
next
  case outer: (Cons a as)
  show ?thesis
  proof (cases as)
    case Nil
    have "parse_unsigned [a] = parse_digits 10 [a]"
      by (simp only: parse_unsigned_def list.case)
    with outer Nil show ?thesis
      using parse_digits_show_nat [of n] by (simp only:)
  next
    case (Cons b rest)
    with outer have "b \<in> set (show_nat n)" by simp
    then have "b \<noteq> CHR ''x''" and "b \<noteq> CHR ''X''"
      using show_nat_char_props [of b n] by simp_all
    then have "parse_unsigned (a # b # rest) = parse_digits 10 (a # b # rest)"
      by (simp only: parse_unsigned_def list.case simp_thms if_False)
    with outer Cons show ?thesis
      using parse_digits_show_nat [of n] by (simp only:)
  qed
qed

lemma parseInt_show_nat: "parseInt (show_nat n) = Some (int n)"
proof (cases "show_nat n")
  case Nil
  then show ?thesis using show_nat_not_Nil [of n] by (simp only:)
next
  case (Cons a as)
  then have "a \<in> set (show_nat n)" by simp
  then have p: "\<not> is_js_space a" "a \<noteq> CHR ''-''" "a \<noteq> CHR ''+''"
    using show_nat_char_props [of a n] by simp_all
  have "parseInt (a # as) = map_option int (parse_unsigned (a # as))"
    using p by (simp only: parseInt_def dropWhile.simps if_False list.case)
  with Cons show ?thesis
    using parse_unsigned_show_nat [of n] by (simp only: option.map)
qed

lemma colon_notin_show_nat: "CHR '':'' \<notin> set (show_nat n)"
  using show_nat_char_props [of "CHR '':''" n] by auto

lemma split_on_prefix:
  "c \<notin> set xs \<Longrightarrow> split_on c (xs @ c # ys) = xs # split_on c ys"
  by (induction xs) auto

lemma split_generateKey:
  assumes "CHR '':'' \<notin> set (objectType p)"
  shows "split_on CHR '':'' (generateKey p) =
         show_nat (workspaceId p) # show_nat (userId p) # objectType p # show_nat (objectId p)
           # split_on CHR '':'' (operation p)"
  using assms
  by (simp add: generateKey_def split_on_prefix colon_notin_show_nat)

lemma is_field_key_generateKey:
  assumes "CHR '':'' \<notin> set (objectType p)"
  shows "is_field_key fid (generateKey p) = (objectType p = ''field'' \<and> int (objectId p) = fid)"
proof -
  let ?parts = "split_on CHR '':'' (generateKey p)"
  have t: "nth_part ?parts 2 = Some (objectType p)"
    and i: "nth_part ?parts 3 = Some (show_nat (objectId p))"
    by (simp_all add: split_generateKey [OF assms] nth_part_def)
  show ?thesis
    by (simp add: is_field_key_def parseKey_def Let_def t i parseInt_part_def parseInt_show_nat)
qed

lemma cache_fold_drop_key:
  "cache (fold drop_key ks s) = filter (\<lambda>(k, e). k \<notin> set ks) (cache s)"
proof (induction ks arbitrary: s)
  case Nil
  then show ?case by simp
next
  case (Cons k ks)
  have "filter (\<lambda>(k', e). k' \<notin> set ks) (filter (\<lambda>(k', e). k' \<noteq> k) (cache s))
        = filter (\<lambda>(k', e). k' \<notin> set (k # ks)) (cache s)"
    by (induction "cache s") (auto intro: filter_cong)
  with Cons show ?case by (simp add: drop_key_def map_delete_def)
qed

lemma accessOrder_fold_drop_key:
  "accessOrder (fold drop_key ks s) = fold remove1 ks (accessOrder s)"
  by (induction ks arbitrary: s) (simp_all add: drop_key_def)

lemma params_fold_drop_key:
  "ttl (fold drop_key ks s) = ttl s \<and> maxSize (fold drop_key ks s) = maxSize s"
  by (induction ks arbitrary: s) simp_all

lemma cache_inv_fold_drop_key: "cache_inv s \<Longrightarrow> cache_inv (fold drop_key ks s)"
  by (induction ks arbitrary: s) (simp_all add: cache_inv_drop_key)

lemma filter_remove1_other: "\<not> P k \<Longrightarrow> filter P (remove1 k xs) = filter P xs"
  by (induction xs) auto

lemma filter_fold_remove1_other:
  "\<forall>k \<in> set ks. \<not> P k \<Longrightarrow> filter P (fold remove1 ks xs) = filter P xs"
  by (induction ks arbitrary: xs) (simp_all add: filter_remove1_other)

lemma fold_remove1_distinct:
  "distinct xs \<Longrightarrow> fold remove1 ks xs = filter (\<lambda>x. x \<notin> set ks) xs"
proof (induction ks arbitrary: xs)
  case Nil
  then show ?case by simp
next
  case (Cons k ks)
  have r: "remove1 k xs = filter (\<lambda>x. x \<noteq> k) xs"
    using Cons.prems by (simp add: distinct_remove1_removeAll removeAll_filter_not_eq) metis
  have "distinct (remove1 k xs)" using Cons.prems by simp
  then have "fold remove1 ks (remove1 k xs) = filter (\<lambda>x. x \<notin> set ks) (remove1 k xs)"
    by (rule Cons.IH)
  then show ?case by (simp add: r)
qed

lemma cache_get_after_set:
  "cache_get params t1 (cache_set params v tc t0 s) =
     (if t1 - t0 > ttl s
      then (None, drop_key (generateKey params) (cache_set params v tc t0 s))
      else (Some v, (cache_set params v tc t0 s)
             \<lparr> accessOrder := updateAccessOrder (generateKey params)
                                 (accessOrder (cache_set params v tc t0 s)) \<rparr>))"
proof -
  have "map_of (cache (cache_set params v tc t0 s)) (generateKey params)
        = Some \<lparr> entry_value = v, timestamp = t0 \<rparr>"
    by (simp add: cache_set_def Let_def map_of_map_set_same)
  then show ?thesis
    by (simp add: cache_get_def Let_def expired_def)
qed

lemma key_gone_after_drop:
  "\<not> map_has k (cache (drop_key k s))"
  "cache_inv s \<Longrightarrow> k \<notin> set (accessOrder (drop_key k s))"
  by (simp_all add: drop_key_def not_map_has_map_delete cache_inv_def)

section \<open>Facts about rule selection\<close>

lemma select_rule_None: "select_rule rs = None \<longleftrightarrow> rs = []"
  by (induction rs) (auto split: option.splits)

lemma select_rule_max:
  "select_rule rs = Some r \<Longrightarrow> r \<in> set rs \<and> (\<forall>r' \<in> set rs. priority r' \<le> priority r)"
proof (induction rs arbitrary: r)
  case Nil
  then show ?case by simp
next
  case (Cons a rs)
  show ?case
  proof (cases "select_rule rs")
    case None
    then have "rs = []" by (simp add: select_rule_None)
    with Cons.prems show ?thesis by simp
  next
    case (Some best)
    from Cons.IH [OF Some] have b: "best \<in> set rs" "\<forall>r' \<in> set rs. priority r' \<le> priority best"
      by simp_all
    show ?thesis
    proof (cases "outranks best a")
      case True
      with Some Cons.prems have "r = best" by simp
      with b True show ?thesis by (auto simp add: outranks_def)
    next
      case False
      with Some Cons.prems have "r = a" by simp
      with b False show ?thesis by (fastforce simp add: outranks_def)
    qed
  qed
qed

section \<open>The permission evaluator and the sidebar filter\<close>

text \<open>
  C2, as stated: without a permission snapshot \<open>hasPermission\<close> returns \<open>true\<close>. It does
  not: on the empty argument the result is \<open>null\<close>, here for table creation.
\<close>

theorem no_snapshot_not_allowed:
  "hasPermission None ''database.create_table'' None 1 \<noteq> JTrue"
  by (simp add: hasPermission_def)

text \<open>
  C2, amended: for every operation, context and workspace, when the permissions argument
  is absent \<open>hasPermission\<close> returns \<open>null\<close>: this manager does not handle the request
  and leaves the decision to the other permission managers.
\<close>

theorem no_snapshot_defers:
  "hasPermission None opn ctx wsid = JNull"
  by (simp add: hasPermission_def)

text \<open>
  C4, as stated: an operation in \<open>denied_operations\<close> is refused whatever the \<open>is_admin\<close>
  flag. The administrator test comes first: a denied operation of an administrator is
  allowed.
\<close>

theorem deny_list_admin_counterexample:
  "in_denied_operations
     \<lparr> is_admin = True, denied_operations = Some [''database.create_table''],
       workspace_structure = None, database_collaborations = None,
       table_permissions = None, field_permissions = None \<rparr>
     ''database.create_table''
   \<and> hasPermission
     (Some \<lparr> is_admin = True, denied_operations = Some [''database.create_table''],
             workspace_structure = None, database_collaborations = None,
             table_permissions = None, field_permissions = None \<rparr>)
     ''database.create_table'' None 1 = JTrue"
  by (simp add: hasPermission_def in_denied_operations_def)

text \<open>
  C4, amended: for every snapshot whose \<open>is_admin\<close> flag is not set, every operation and
  every context, an operation that is a member of \<open>denied_operations\<close> is refused,
  whatever the workspace, database, table and field records say.
\<close>

theorem deny_list_non_admin:
  assumes "\<not> is_admin p" and "in_denied_operations p opn"
  shows "hasPermission (Some p) opn ctx wsid = JFalse"
  using assms by (simp add: hasPermission_def)

theorem deny_list_non_admin_witness:
  "hasPermission
     (Some \<lparr> is_admin = False, denied_operations = Some [''database.create_table''],
             workspace_structure =
               Some \<lparr> can_create_table = Some True, can_delete_table = Some True,
                      can_delete_database = Some True \<rparr>,
             database_collaborations =
               Some [1 \<mapsto> \<lparr> accessible_tables = Some [5], collab_can_create_table = Some True,
                             collab_can_delete_table = Some True \<rparr>],
             table_permissions = None, field_permissions = None \<rparr>)
     ''database.create_table''
     (Some \<lparr> database_id = Some 1, table_id = None, field_id = None, ctx_id = Some 1 \<rparr>)
     1 = JFalse"
  by (rule deny_list_non_admin) (simp_all add: in_denied_operations_def)

text \<open>
  C5, as stated: every snapshot without the administrator flag refuses the creation of a
  database-level application. The refusal sits inside the \<open>workspace_structure\<close> block: a
  snapshot without that record gives \<open>null\<close>.
\<close>

theorem create_application_no_structure:
  "hasPermission
     (Some \<lparr> is_admin = False, denied_operations = None,
             workspace_structure = None, database_collaborations = None,
             table_permissions = None, field_permissions = None \<rparr>)
     ''application.create_application'' None 1 = JNull"
  by (simp add: hasPermission_def in_denied_operations_def workspace_layer_def
      database_layer_def table_layer_def field_layer_def)

text \<open>
  C5, amended: for every snapshot without the administrator flag that carries a
  \<open>workspace_structure\<close> record, and every context, the operations
  \<open>application.create_application\<close> and \<open>workspace.create_application\<close> are refused,
  whatever the flags of the snapshot are.
\<close>

theorem create_application_denied:
  assumes "\<not> is_admin p" and "workspace_structure p = Some w"
    and "opn = ''application.create_application'' \<or> opn = ''workspace.create_application''"
  shows "hasPermission (Some p) opn ctx wsid = JFalse"
  using assms by (auto simp add: hasPermission_def workspace_layer_def)

theorem create_application_denied_witness:
  "hasPermission
     (Some \<lparr> is_admin = False, denied_operations = Some [],
             workspace_structure =
               Some \<lparr> can_create_table = Some True, can_delete_table = Some True,
                      can_delete_database = Some True \<rparr>,
             database_collaborations = None,
             table_permissions = None, field_permissions = None \<rparr>)
     ''workspace.create_application'' None 1 = JFalse"
  by (rule create_application_denied) simp_all

text \<open>
  C6, as stated: for a snapshot without the administrator flag and a database with a
  collaboration record, table creation is allowed as soon as one of the two flags is
  true. The deny-list is read before the flags: with both flags true and the operation
  in \<open>denied_operations\<close> the result is \<open>false\<close>.
\<close>

theorem table_create_denied_despite_flags:
  "ws_can_create_table
     \<lparr> is_admin = False, denied_operations = Some [''database.create_table''],
       workspace_structure =
         Some \<lparr> can_create_table = Some True, can_delete_table = Some True,
                can_delete_database = Some True \<rparr>,
       database_collaborations =
         Some [1 \<mapsto> \<lparr> accessible_tables = Some [5], collab_can_create_table = Some True,
                       collab_can_delete_table = Some True \<rparr>],
       table_permissions = None, field_permissions = None \<rparr>
   \<and> hasPermission
     (Some \<lparr> is_admin = False, denied_operations = Some [''database.create_table''],
             workspace_structure =
               Some \<lparr> can_create_table = Some True, can_delete_table = Some True,
                      can_delete_database = Some True \<rparr>,
             database_collaborations =
               Some [1 \<mapsto> \<lparr> accessible_tables = Some [5], collab_can_create_table = Some True,
                             collab_can_delete_table = Some True \<rparr>],
             table_permissions = None, field_permissions = None \<rparr>)
     ''database.create_table''
     (Some \<lparr> database_id = Some 1, table_id = None, field_id = None, ctx_id = Some 1 \<rparr>)
     1 = JFalse"
  by (simp add: hasPermission_def in_denied_operations_def ws_can_create_table_def
      truthy_flag_def)

text \<open>
  C6, amended: for a snapshot without the administrator flag, an operation
  \<open>database.create_table\<close> (respectively \<open>database.table.delete\<close>) that is not in
  \<open>denied_operations\<close>, and a context whose database has a collaboration record, the
  result is \<open>true\<close> if the workspace-structure flag \<open>can_create_table\<close> (respectively
  \<open>can_delete_table\<close>) is true or the flag of the collaboration record is true, and
  \<open>false\<close> when both flags are false.
\<close>

theorem table_create_delete_or_widening:
  assumes "\<not> is_admin p" and "\<not> in_denied_operations p opn"
    and "database_collaborations p = Some m"
    and "js_lookup m (js_or_id (database_id c) (ctx_id c)) = Some cb"
  shows
    "(opn = ''database.create_table'' \<longrightarrow>
        (ws_can_create_table p \<or> collab_can_create_table cb = Some True \<longrightarrow>
           hasPermission (Some p) opn (Some c) wsid = JTrue)
        \<and> (\<not> ws_can_create_table p \<and> collab_can_create_table cb = Some False \<longrightarrow>
           hasPermission (Some p) opn (Some c) wsid = JFalse))
     \<and> (opn = ''database.table.delete'' \<longrightarrow>
        (ws_can_delete_table p \<or> collab_can_delete_table cb = Some True \<longrightarrow>
           hasPermission (Some p) opn (Some c) wsid = JTrue)
        \<and> (\<not> ws_can_delete_table p \<and> collab_can_delete_table cb = Some False \<longrightarrow>
           hasPermission (Some p) opn (Some c) wsid = JFalse))"
proof -
  have w: "workspace_layer p ''database.create_table'' = None"
    "workspace_layer p ''database.table.delete'' = None"
    by (simp_all add: workspace_layer_def split: option.splits)
  show ?thesis
    using assms
    by (auto simp add: hasPermission_def w database_layer_def js_of_flag_def)
qed

theorem table_create_delete_or_widening_witness:
  "hasPermission
     (Some \<lparr> is_admin = False, denied_operations = Some [],
             workspace_structure =
               Some \<lparr> can_create_table = Some False, can_delete_table = Some True,
                      can_delete_database = Some False \<rparr>,
             database_collaborations =
               Some [1 \<mapsto> \<lparr> accessible_tables = Some [5], collab_can_create_table = Some True,
                             collab_can_delete_table = Some False \<rparr>],
             table_permissions = None, field_permissions = None \<rparr>)
     ''database.create_table''
     (Some \<lparr> database_id = Some 1, table_id = None, field_id = None, ctx_id = Some 1 \<rparr>)
     1 = JTrue
   \<and> hasPermission
     (Some \<lparr> is_admin = False, denied_operations = Some [],
             workspace_structure =
               Some \<lparr> can_create_table = Some False, can_delete_table = Some True,
                      can_delete_database = Some False \<rparr>,
             database_collaborations =
               Some [1 \<mapsto> \<lparr> accessible_tables = Some [5], collab_can_create_table = Some True,
                             collab_can_delete_table = Some False \<rparr>],
             table_permissions = None, field_permissions = None \<rparr>)
     ''database.table.delete''
     (Some \<lparr> database_id = Some 1, table_id = None, field_id = None, ctx_id = Some 1 \<rparr>)
     1 = JTrue
   \<and> hasPermission
     (Some \<lparr> is_admin = False, denied_operations = Some [],
             workspace_structure =
               Some \<lparr> can_create_table = Some False, can_delete_table = Some False,
                      can_delete_database = Some False \<rparr>,
             database_collaborations =
               Some [1 \<mapsto> \<lparr> accessible_tables = Some [5], collab_can_create_table = Some False,
                             collab_can_delete_table = Some False \<rparr>],
             table_permissions = None, field_permissions = None \<rparr>)
     ''database.create_table''
     (Some \<lparr> database_id = Some 1, table_id = None, field_id = None, ctx_id = Some 1 \<rparr>)
     1 = JFalse
   \<and> hasPermission
     (Some \<lparr> is_admin = False, denied_operations = Some [],
             workspace_structure =
               Some \<lparr> can_create_table = Some False, can_delete_table = Some False,
                      can_delete_database = Some False \<rparr>,
             database_collaborations =
               Some [1 \<mapsto> \<lparr> accessible_tables = Some [5], collab_can_create_table = Some False,
                             collab_can_delete_table = Some False \<rparr>],
             table_permissions = None, field_permissions = None \<rparr>)
     ''database.table.delete''
     (Some \<lparr> database_id = Some 1, table_id = None, field_id = None, ctx_id = Some 1 \<rparr>)
     1 = JFalse"
proof -
  let ?pa = "\<lparr> is_admin = False, denied_operations = Some [],
             workspace_structure =
               Some \<lparr> can_create_table = Some False, can_delete_table = Some True,
                      can_delete_database = Some False \<rparr>,
             database_collaborations =
               Some [1 \<mapsto> \<lparr> accessible_tables = Some [5], collab_can_create_table = Some True,
                             collab_can_delete_table = Some False \<rparr>],
             table_permissions = None, field_permissions = None \<rparr>"
  let ?pb = "\<lparr> is_admin = False, denied_operations = Some [],
             workspace_structure =
               Some \<lparr> can_create_table = Some False, can_delete_table = Some False,
                      can_delete_database = Some False \<rparr>,
             database_collaborations =
               Some [1 \<mapsto> \<lparr> accessible_tables = Some [5], collab_can_create_table = Some False,
                             collab_can_delete_table = Some False \<rparr>],
             table_permissions = None, field_permissions = None \<rparr>"
  let ?c = "\<lparr> database_id = Some 1, table_id = None, field_id = None, ctx_id = Some 1 \<rparr>"
  note d = in_denied_operations_def js_lookup_def js_or_id_def ws_can_create_table_def
    ws_can_delete_table_def truthy_flag_def
  have "hasPermission (Some ?pa) ''database.create_table'' (Some ?c) 1 = JTrue"
    using table_create_delete_or_widening
      [where p = ?pa and opn = "''database.create_table''" and c = ?c and cb = "\<lparr> accessible_tables = Some [5], collab_can_create_table = Some True, collab_can_delete_table = Some False \<rparr>" and wsid = 1]
    by (simp add: d)
  moreover have "hasPermission (Some ?pa) ''database.table.delete'' (Some ?c) 1 = JTrue"
    using table_create_delete_or_widening
      [where p = ?pa and opn = "''database.table.delete''" and c = ?c and cb = "\<lparr> accessible_tables = Some [5], collab_can_create_table = Some True, collab_can_delete_table = Some False \<rparr>" and wsid = 1]
    by (simp add: d)
  moreover have "hasPermission (Some ?pb) ''database.create_table'' (Some ?c) 1 = JFalse"
    using table_create_delete_or_widening
      [where p = ?pb and opn = "''database.create_table''" and c = ?c and cb = "\<lparr> accessible_tables = Some [5], collab_can_create_table = Some False, collab_can_delete_table = Some False \<rparr>" and wsid = 1]
    by (simp add: d)
  moreover have "hasPermission (Some ?pb) ''database.table.delete'' (Some ?c) 1 = JFalse"
    using table_create_delete_or_widening
      [where p = ?pb and opn = "''database.table.delete''" and c = ?c and cb = "\<lparr> accessible_tables = Some [5], collab_can_create_table = Some False, collab_can_delete_table = Some False \<rparr>" and wsid = 1]
    by (simp add: d)
  ultimately show ?thesis by (simp only: simp_thms)
qed

text \<open>
  C1, as stated: with a \<open>database_collaborations\<close> map that has no record for a database,
  the evaluator refuses every table-scoped operation on it. It does not: for database 1,
  which has no record, table creation is allowed by the workspace-structure flag, and a
  row update on table 5, for which a table permission record exists, is left undecided
  (\<open>null\<close>).
\<close>

theorem collaboration_gate_evaluator_counterexample:
  "js_lookup [2 \<mapsto> \<lparr> accessible_tables = Some [5], collab_can_create_table = Some True, collab_can_delete_table = Some True \<rparr>] (Some 1) = None
   \<and> hasPermission
     (Some \<lparr> is_admin = False, denied_operations = Some [],
             workspace_structure =
               Some \<lparr> can_create_table = Some True, can_delete_table = Some False,
                      can_delete_database = Some False \<rparr>,
             database_collaborations =
               Some [2 \<mapsto> \<lparr> accessible_tables = Some [5], collab_can_create_table = Some True,
                             collab_can_delete_table = Some True \<rparr>],
             table_permissions = Some [5 \<mapsto> \<lparr> permission_level = Some ''editable'', can_create_field = Some True,
                                can_delete_field = Some True \<rparr>], field_permissions = None \<rparr>)
     ''database.create_table''
     (Some \<lparr> database_id = Some 1, table_id = None, field_id = None, ctx_id = Some 1 \<rparr>)
     1 = JTrue
   \<and> hasPermission
     (Some \<lparr> is_admin = False, denied_operations = Some [],
             workspace_structure =
               Some \<lparr> can_create_table = Some True, can_delete_table = Some False,
                      can_delete_database = Some False \<rparr>,
             database_collaborations =
               Some [2 \<mapsto> \<lparr> accessible_tables = Some [5], collab_can_create_table = Some True,
                             collab_can_delete_table = Some True \<rparr>],
             table_permissions = Some [5 \<mapsto> \<lparr> permission_level = Some ''editable'', can_create_field = Some True,
                                can_delete_field = Some True \<rparr>], field_permissions = None \<rparr>)
     ''database.table.row.update''
     (Some \<lparr> database_id = Some 1, table_id = Some 5, field_id = None, ctx_id = Some 5 \<rparr>)
     1 = JNull"
  by (simp add: hasPermission_def in_denied_operations_def workspace_layer_def
      database_layer_def table_layer_def field_layer_def js_lookup_def js_or_id_def
      ws_can_create_table_def truthy_flag_def)

text \<open>
  C1, amended: for every database and every snapshot without the administrator flag whose
  \<open>database_collaborations\<close> map has no record for the database, the sidebar filter
  \<open>hasAccessToDatabase\<close> returns \<open>false\<close> once the workspace's permissions are loaded and
  the snapshot is the one of the \<open>access_control\<close> manager, even if a table permission
  record exists for one of the database's tables. The evaluator does not refuse on that
  ground: for an operation outside \<open>denied_operations\<close> on such a database it answers
  \<open>database.create_table\<close> and \<open>database.table.delete\<close> by the workspace-structure
  flag alone, and \<open>database.table.update\<close>, \<open>database.table.row.create\<close> and
  \<open>database.table.row.update\<close> by the table permission record alone: \<open>false\<close> when that
  record is read-only, \<open>null\<close> otherwise.
\<close>

theorem collaboration_gate_sidebar_only:
  assumes "\<not> is_admin p" and "database_collaborations p = Some m" and "m d = None"
  shows
    "(permissionsLoaded w \<and> ws_permissions w = Some ps
        \<and> find (\<lambda>e. name e = ''access_control'') ps = Some e \<and> permissions e = Some p
        \<longrightarrow> hasAccessToDatabase (Some w) d = JFalse)
     \<and> (\<not> in_denied_operations p opn \<and> js_or_id (database_id c) (ctx_id c) = Some d \<longrightarrow>
          (opn = ''database.create_table'' \<longrightarrow>
             hasPermission (Some p) opn (Some c) wsid
               = (if ws_can_create_table p then JTrue else JFalse))
          \<and> (opn = ''database.table.delete'' \<longrightarrow>
             hasPermission (Some p) opn (Some c) wsid
               = (if ws_can_delete_table p then JTrue else JFalse))
          \<and> (opn = ''database.table.update'' \<or> opn = ''database.table.row.create''
               \<or> opn = ''database.table.row.update'' \<longrightarrow>
             hasPermission (Some p) opn (Some c) wsid
               = (if table_read_only p c then JFalse else JNull)))"
proof (intro conjI impI)
  assume "permissionsLoaded w \<and> ws_permissions w = Some ps
        \<and> find (\<lambda>e. name e = ''access_control'') ps = Some e \<and> permissions e = Some p"
  moreover from this have "ps \<noteq> []" by auto
  ultimately show "hasAccessToDatabase (Some w) d = JFalse"
    using assms by (simp add: hasAccessToDatabase_def)
next
  assume a: "\<not> in_denied_operations p opn \<and> js_or_id (database_id c) (ctx_id c) = Some d"
    and o: "opn = ''database.create_table''"
  have "workspace_layer p opn = None"
    by (simp add: o workspace_layer_def split: option.splits)
  then show "hasPermission (Some p) opn (Some c) wsid
               = (if ws_can_create_table p then JTrue else JFalse)"
    using assms a by (simp add: o hasPermission_def database_layer_def js_lookup_def)
next
  assume a: "\<not> in_denied_operations p opn \<and> js_or_id (database_id c) (ctx_id c) = Some d"
    and o: "opn = ''database.table.delete''"
  have "workspace_layer p opn = None"
    by (simp add: o workspace_layer_def split: option.splits)
  then show "hasPermission (Some p) opn (Some c) wsid
               = (if ws_can_delete_table p then JTrue else JFalse)"
    using assms a by (simp add: o hasPermission_def database_layer_def js_lookup_def)
next
  assume a: "\<not> in_denied_operations p opn \<and> js_or_id (database_id c) (ctx_id c) = Some d"
    and o: "opn = ''database.table.update'' \<or> opn = ''database.table.row.create''
               \<or> opn = ''database.table.row.update''"
  have w: "workspace_layer p opn = None"
    using o by (auto simp add: workspace_layer_def split: option.splits)
  have b: "database_layer p opn (Some c) = None"
    using o assms a by (auto simp add: database_layer_def js_lookup_def)
  have f: "field_layer p opn (Some c) = None"
    using o by (auto simp add: field_layer_def split: option.splits)
  have t: "table_layer p opn (Some c) = (if table_read_only p c then Some JFalse else None)"
    using o by (auto simp add: table_layer_def table_read_only_def split: option.splits)
  show "hasPermission (Some p) opn (Some c) wsid
               = (if table_read_only p c then JFalse else JNull)"
    using assms a by (simp add: hasPermission_def w b f t)
qed

theorem collaboration_gate_sidebar_only_witness:
  "hasAccessToDatabase
     (Some \<lparr> permissionsLoaded = True,
             ws_permissions =
               Some [\<lparr> name = ''core'', permissions = None \<rparr>,
                     \<lparr> name = ''access_control'', permissions = Some \<lparr> is_admin = False, denied_operations = Some [],
             workspace_structure =
               Some \<lparr> can_create_table = Some True, can_delete_table = Some False,
                      can_delete_database = Some False \<rparr>,
             database_collaborations =
               Some [2 \<mapsto> \<lparr> accessible_tables = Some [5], collab_can_create_table = Some True,
                             collab_can_delete_table = Some True \<rparr>],
             table_permissions = Some [5 \<mapsto> \<lparr> permission_level = Some ''editable'', can_create_field = Some True,
                                can_delete_field = Some True \<rparr>], field_permissions = None \<rparr> \<rparr>] \<rparr>)
     1 = JFalse
   \<and> hasPermission
     (Some \<lparr> is_admin = False, denied_operations = Some [],
             workspace_structure =
               Some \<lparr> can_create_table = Some True, can_delete_table = Some False,
                      can_delete_database = Some False \<rparr>,
             database_collaborations =
               Some [2 \<mapsto> \<lparr> accessible_tables = Some [5], collab_can_create_table = Some True,
                             collab_can_delete_table = Some True \<rparr>],
             table_permissions = Some [5 \<mapsto> \<lparr> permission_level = Some ''editable'', can_create_field = Some True,
                                can_delete_field = Some True \<rparr>], field_permissions = None \<rparr>)
     ''database.create_table''
     (Some \<lparr> database_id = Some 1, table_id = None, field_id = None, ctx_id = Some 1 \<rparr>)
     1 = JTrue
   \<and> hasPermission
     (Some \<lparr> is_admin = False, denied_operations = Some [],
             workspace_structure =
               Some \<lparr> can_create_table = Some True, can_delete_table = Some False,
                      can_delete_database = Some False \<rparr>,
             database_collaborations =
               Some [2 \<mapsto> \<lparr> accessible_tables = Some [5], collab_can_create_table = Some True,
                             collab_can_delete_table = Some True \<rparr>],
             table_permissions = Some [5 \<mapsto> \<lparr> permission_level = Some ''editable'', can_create_field = Some True,
                                can_delete_field = Some True \<rparr>], field_permissions = None \<rparr>)
     ''database.table.row.update''
     (Some \<lparr> database_id = Some 1, table_id = Some 5, field_id = None, ctx_id = Some 5 \<rparr>)
     1 = JNull"
proof -
  let ?p = "\<lparr> is_admin = False, denied_operations = Some [],
             workspace_structure =
               Some \<lparr> can_create_table = Some True, can_delete_table = Some False,
                      can_delete_database = Some False \<rparr>,
             database_collaborations =
               Some [2 \<mapsto> \<lparr> accessible_tables = Some [5], collab_can_create_table = Some True,
                             collab_can_delete_table = Some True \<rparr>],
             table_permissions = Some [5 \<mapsto> \<lparr> permission_level = Some ''editable'', can_create_field = Some True,
                                can_delete_field = Some True \<rparr>], field_permissions = None \<rparr>"
  let ?m = "[2::nat \<mapsto> \<lparr> accessible_tables = Some [5], collab_can_create_table = Some True, collab_can_delete_table = Some True \<rparr>]"
  let ?e = "\<lparr> name = ''access_control'', permissions = Some ?p \<rparr>"
  let ?ps = "[\<lparr> name = ''core'', permissions = None \<rparr>, ?e]"
  let ?w = "\<lparr> permissionsLoaded = True, ws_permissions = Some ?ps \<rparr>"
  let ?cd = "\<lparr> database_id = Some 1, table_id = None, field_id = None, ctx_id = Some 1 \<rparr>"
  let ?ct = "\<lparr> database_id = Some 1, table_id = Some 5, field_id = None, ctx_id = Some 5 \<rparr>"
  note d = in_denied_operations_def js_or_id_def ws_can_create_table_def truthy_flag_def
    table_read_only_def js_lookup_def
  have h: "\<not> is_admin ?p" "database_collaborations ?p = Some ?m" "?m (1::nat) = None"
    by simp_all
  have "hasAccessToDatabase (Some ?w) 1 = JFalse"
    using collaboration_gate_sidebar_only [OF h, where w = ?w and ps = ?ps and e = ?e]
    by simp
  moreover have "hasPermission (Some ?p) ''database.create_table'' (Some ?cd) 1 = JTrue"
    using collaboration_gate_sidebar_only
      [OF h, where opn = "''database.create_table''" and c = ?cd and wsid = 1]
    by (simp add: d)
  moreover have "hasPermission (Some ?p) ''database.table.row.update'' (Some ?ct) 1 = JNull"
    using collaboration_gate_sidebar_only
      [OF h, where opn = "''database.table.row.update''" and c = ?ct and wsid = 1]
    by (simp add: d)
  ultimately show ?thesis by (simp only: simp_thms)
qed

section \<open>The permission cache\<close>

text \<open>
  C3: starting from an empty cache of capacity \<open>maxSize\<close>, inserting \<open>maxSize + 1\<close> distinct
  keys leaves exactly \<open>maxSize\<close> entries, the least recently used key evicted. The code
  runs \<open>_cleanup\<close> before it inserts, and \<open>_cleanup\<close> evicts only while the map holds more
  than \<open>maxSize\<close> entries: with capacity 2 and three keys set at times 0, 1 and 2, the
  third \<open>set\<close> finds two entries, evicts nothing, and leaves three, the oldest key among
  them.
\<close>

theorem lru_bound_exceeded:
  "maxSize (cache_set \<lparr> workspaceId = 1, userId = 2, objectType = ''table'', objectId = 3, operation = ''read'' \<rparr> JTrue 2 2
        (cache_set \<lparr> workspaceId = 1, userId = 2, objectType = ''table'', objectId = 2, operation = ''read'' \<rparr> JTrue 1 1
          (cache_set \<lparr> workspaceId = 1, userId = 2, objectType = ''table'', objectId = 1, operation = ''read'' \<rparr> JTrue 0 0
            (PermissionCache \<lparr> opt_ttl = None, opt_maxSize = Some 2 \<rparr>)))) = 2
   \<and> map fst (cache (cache_set \<lparr> workspaceId = 1, userId = 2, objectType = ''table'', objectId = 3, operation = ''read'' \<rparr> JTrue 2 2
        (cache_set \<lparr> workspaceId = 1, userId = 2, objectType = ''table'', objectId = 2, operation = ''read'' \<rparr> JTrue 1 1
          (cache_set \<lparr> workspaceId = 1, userId = 2, objectType = ''table'', objectId = 1, operation = ''read'' \<rparr> JTrue 0 0
            (PermissionCache \<lparr> opt_ttl = None, opt_maxSize = Some 2 \<rparr>)))))
       = [''1:2:table:1:read'', ''1:2:table:2:read'', ''1:2:table:3:read'']
   \<and> accessOrder (cache_set \<lparr> workspaceId = 1, userId = 2, objectType = ''table'', objectId = 3, operation = ''read'' \<rparr> JTrue 2 2
        (cache_set \<lparr> workspaceId = 1, userId = 2, objectType = ''table'', objectId = 2, operation = ''read'' \<rparr> JTrue 1 1
          (cache_set \<lparr> workspaceId = 1, userId = 2, objectType = ''table'', objectId = 1, operation = ''read'' \<rparr> JTrue 0 0
            (PermissionCache \<lparr> opt_ttl = None, opt_maxSize = Some 2 \<rparr>))))
       = [''1:2:table:1:read'', ''1:2:table:2:read'', ''1:2:table:3:read'']"
  by code_simp

text \<open>
  C8: for every key and value, \<open>set\<close> followed by \<open>get\<close> of the same key returns the
  value as long as the time elapsed since the time stamp of the \<open>set\<close> is within the TTL;
  once it is beyond the TTL, \<open>get\<close> returns \<open>undefined\<close> and deletes the entry from the
  map and, in a well-formed cache, from the access order.
\<close>

theorem cache_round_trip:
  "fst (cache_get params t1 (cache_set params v tc t0 s))
     = (if t1 - t0 \<le> ttl s then Some v else None)
   \<and> (t1 - t0 > ttl s \<longrightarrow>
        snd (cache_get params t1 (cache_set params v tc t0 s))
          = drop_key (generateKey params) (cache_set params v tc t0 s)
        \<and> \<not> map_has (generateKey params)
               (cache (snd (cache_get params t1 (cache_set params v tc t0 s))))
        \<and> (cache_inv s \<longrightarrow>
             generateKey params
               \<notin> set (accessOrder (snd (cache_get params t1 (cache_set params v tc t0 s))))))"
  by (simp add: cache_get_after_set key_gone_after_drop cache_inv_cache_set)

theorem cache_round_trip_witness:
  "fst (cache_get \<lparr> workspaceId = 1, userId = 2, objectType = ''field'', objectId = 7, operation = ''read'' \<rparr> 1100
        (cache_set \<lparr> workspaceId = 1, userId = 2, objectType = ''field'', objectId = 7, operation = ''read'' \<rparr> JTrue 100 100
          (PermissionCache \<lparr> opt_ttl = Some 1000, opt_maxSize = None \<rparr>))) = Some JTrue
   \<and> fst (cache_get \<lparr> workspaceId = 1, userId = 2, objectType = ''field'', objectId = 7, operation = ''read'' \<rparr> 1101
        (cache_set \<lparr> workspaceId = 1, userId = 2, objectType = ''field'', objectId = 7, operation = ''read'' \<rparr> JTrue 100 100
          (PermissionCache \<lparr> opt_ttl = Some 1000, opt_maxSize = None \<rparr>))) = None
   \<and> \<not> map_has (generateKey \<lparr> workspaceId = 1, userId = 2, objectType = ''field'', objectId = 7, operation = ''read'' \<rparr>)
         (cache (snd (cache_get \<lparr> workspaceId = 1, userId = 2, objectType = ''field'', objectId = 7, operation = ''read'' \<rparr> 1101
        (cache_set \<lparr> workspaceId = 1, userId = 2, objectType = ''field'', objectId = 7, operation = ''read'' \<rparr> JTrue 100 100
          (PermissionCache \<lparr> opt_ttl = Some 1000, opt_maxSize = None \<rparr>)))))
   \<and> generateKey \<lparr> workspaceId = 1, userId = 2, objectType = ''field'', objectId = 7, operation = ''read'' \<rparr>
       \<notin> set (accessOrder (snd (cache_get \<lparr> workspaceId = 1, userId = 2, objectType = ''field'', objectId = 7, operation = ''read'' \<rparr> 1101
        (cache_set \<lparr> workspaceId = 1, userId = 2, objectType = ''field'', objectId = 7, operation = ''read'' \<rparr> JTrue 100 100
          (PermissionCache \<lparr> opt_ttl = Some 1000, opt_maxSize = None \<rparr>)))))"
proof -
  let ?s = "PermissionCache \<lparr> opt_ttl = Some 1000, opt_maxSize = None \<rparr> :: jsval permission_cache"
  let ?p = "\<lparr> workspaceId = 1, userId = 2, objectType = ''field'', objectId = 7, operation = ''read'' \<rparr>"
  let ?k = "generateKey ?p"
  have t: "ttl ?s = 1000" by (simp add: PermissionCache_def js_or_default_def)
  have i: "cache_inv ?s" by (rule cache_inv_new)
  note early = cache_round_trip [where params = ?p and ?t1.0 = 1100 and v = JTrue and tc = 100
        and ?t0.0 = 100 and s = ?s]
  note late = cache_round_trip [where params = ?p and ?t1.0 = 1101 and v = JTrue and tc = 100
        and ?t0.0 = 100 and s = ?s]
  have a: "fst (cache_get ?p 1100 (cache_set ?p JTrue 100 100 ?s)) = Some JTrue"
    using conjunct1 [OF early] by (simp add: t)
  have b: "fst (cache_get ?p 1101 (cache_set ?p JTrue 100 100 ?s)) = None"
    using conjunct1 [OF late] by (simp add: t)
  have x: "1101 - 100 > ttl ?s" by (simp add: t)
  note gone = mp [OF conjunct2 [OF late] x]
  have c: "\<not> map_has ?k (cache (snd (cache_get ?p 1101 (cache_set ?p JTrue 100 100 ?s))))"
    by (rule conjunct1 [OF conjunct2 [OF gone]])
  have d: "?k \<notin> set (accessOrder (snd (cache_get ?p 1101 (cache_set ?p JTrue 100 100 ?s))))"
    by (rule mp [OF conjunct2 [OF conjunct2 [OF gone]] i])
  show ?thesis by (intro conjI a b c d)
qed

text \<open>
  C9: for every cache state, \<open>invalidateByField\<close> removes from the map exactly the entries
  whose key parses to object type \<open>field\<close> and the given object id, and leaves the others
  as they are and in their order; in the access order the other keys keep their order,
  and in a well-formed cache the access order loses exactly the keys of that field. TTL
  and capacity do not change. A key generated for an object type without a colon is
  such a key exactly when the type is \<open>field\<close> and the object id is the given one, so
  entries for another field or another object type stay.
\<close>

theorem invalidateByField_frame:
  "cache (invalidateByField fid s) = filter (\<lambda>(k, e). \<not> is_field_key fid k) (cache s)
   \<and> filter (\<lambda>k. \<not> is_field_key fid k) (accessOrder (invalidateByField fid s))
       = filter (\<lambda>k. \<not> is_field_key fid k) (accessOrder s)
   \<and> (cache_inv s \<longrightarrow>
        accessOrder (invalidateByField fid s)
          = filter (\<lambda>k. \<not> is_field_key fid k) (accessOrder s))
   \<and> ttl (invalidateByField fid s) = ttl s
   \<and> maxSize (invalidateByField fid s) = maxSize s
   \<and> (\<forall>p. CHR '':'' \<notin> set (objectType p) \<longrightarrow>
         is_field_key fid (generateKey p) = (objectType p = ''field'' \<and> int (objectId p) = fid))"
proof -
  let ?ks = "filter (is_field_key fid) (map fst (cache s))"
  have c: "cache (invalidateByField fid s) = filter (\<lambda>(k, e). \<not> is_field_key fid k) (cache s)"
    unfolding invalidateByField_def Let_def cache_fold_drop_key
    by (rule filter_cong) force+
  have f: "filter (\<lambda>k. \<not> is_field_key fid k) (accessOrder (invalidateByField fid s))
       = filter (\<lambda>k. \<not> is_field_key fid k) (accessOrder s)"
    unfolding invalidateByField_def Let_def accessOrder_fold_drop_key
    by (rule filter_fold_remove1_other) simp
  have o: "accessOrder (invalidateByField fid s)
          = filter (\<lambda>k. \<not> is_field_key fid k) (accessOrder s)" if inv: "cache_inv s"
  proof -
    from inv have d: "distinct (accessOrder s)"
      and e: "set (accessOrder s) = set (map fst (cache s))"
      by (simp_all add: cache_inv_def)
    have "accessOrder (invalidateByField fid s) = filter (\<lambda>x. x \<notin> set ?ks) (accessOrder s)"
      unfolding invalidateByField_def Let_def accessOrder_fold_drop_key
      using d by (rule fold_remove1_distinct)
    also have "\<dots> = filter (\<lambda>k. \<not> is_field_key fid k) (accessOrder s)"
      by (rule filter_cong) (use e in auto)
    finally show ?thesis .
  qed
  have p: "ttl (invalidateByField fid s) = ttl s \<and> maxSize (invalidateByField fid s) = maxSize s"
    unfolding invalidateByField_def Let_def by (rule params_fold_drop_key)
  from c f o p show ?thesis
    by (simp add: is_field_key_generateKey)
qed

theorem invalidateByField_frame_witness:
  "cache (invalidateByField 7
       \<lparr> ttl = 1000, maxSize = 10,
          cache = [(''1:2:field:8:read'', \<lparr> entry_value = JTrue, timestamp = 0 \<rparr>),
                   (''1:2:field:7:read'', \<lparr> entry_value = JTrue, timestamp = 0 \<rparr>),
                   (''1:2:table:7:read'', \<lparr> entry_value = JTrue, timestamp = 0 \<rparr>)],
          accessOrder = [''1:2:table:7:read'', ''1:2:field:7:read'', ''1:2:field:8:read''] \<rparr>)
     = [(''1:2:field:8:read'', \<lparr> entry_value = JTrue, timestamp = 0 \<rparr>),
        (''1:2:table:7:read'', \<lparr> entry_value = JTrue, timestamp = 0 \<rparr>)]
   \<and> accessOrder (invalidateByField 7
       \<lparr> ttl = 1000, maxSize = 10,
          cache = [(''1:2:field:8:read'', \<lparr> entry_value = JTrue, timestamp = 0 \<rparr>),
                   (''1:2:field:7:read'', \<lparr> entry_value = JTrue, timestamp = 0 \<rparr>),
                   (''1:2:table:7:read'', \<lparr> entry_value = JTrue, timestamp = 0 \<rparr>)],
          accessOrder = [''1:2:table:7:read'', ''1:2:field:7:read'', ''1:2:field:8:read''] \<rparr>)
     = [''1:2:table:7:read'', ''1:2:field:8:read'']
   \<and> \<not> is_field_key 7 (generateKey \<lparr> workspaceId = 1, userId = 2, objectType = ''field'', objectId = 8, operation = ''read'' \<rparr>)"
proof -
  let ?s = "\<lparr> ttl = 1000, maxSize = 10,
          cache = [(''1:2:field:8:read'', \<lparr> entry_value = JTrue, timestamp = 0 \<rparr>),
                   (''1:2:field:7:read'', \<lparr> entry_value = JTrue, timestamp = 0 \<rparr>),
                   (''1:2:table:7:read'', \<lparr> entry_value = JTrue, timestamp = 0 \<rparr>)],
          accessOrder = [''1:2:table:7:read'', ''1:2:field:7:read'', ''1:2:field:8:read''] \<rparr>"
  have k: "is_field_key 7 ''1:2:field:7:read''" "\<not> is_field_key 7 ''1:2:field:8:read''"
    "\<not> is_field_key 7 ''1:2:table:7:read''"
    by code_simp+
  have i: "cache_inv ?s" by (auto simp add: cache_inv_def)
  show ?thesis
    using invalidateByField_frame [of 7 ?s] by (simp add: k i)
qed

text \<open>
  C10, as stated: caching cannot be disabled through the constructor's \<open>ttl\<close> parameter.
  A negative value is truthy and is kept: with \<open>ttl = -1\<close> a \<open>get\<close> at the very time of the
  \<open>set\<close> already misses.
\<close>

theorem negative_ttl_disables_cache:
  "fst (cache_get \<lparr> workspaceId = 1, userId = 2, objectType = ''field'', objectId = 7, operation = ''read'' \<rparr> 100
        (cache_set \<lparr> workspaceId = 1, userId = 2, objectType = ''field'', objectId = 7, operation = ''read'' \<rparr> JTrue 100 100
          (PermissionCache \<lparr> opt_ttl = Some (- 1), opt_maxSize = None \<rparr>))) = None"
  by (simp add: cache_get_after_set PermissionCache_def js_or_default_def)

text \<open>
  C10, amended: a zero TTL cannot be configured: the constructor replaces \<open>options.ttl = 0\<close>
  by the default of 5 minutes and \<open>options.maxSize = 0\<close> by the default of 1000 entries,
  so on an instance built with \<open>ttl = 0\<close> a \<open>get\<close> within 5 minutes of the \<open>set\<close> still
  returns the cached value; caching cannot be disabled by passing \<open>ttl = 0\<close>.
\<close>

theorem zero_ttl_falls_back:
  "ttl (PermissionCache \<lparr> opt_ttl = Some 0, opt_maxSize = m \<rparr>) = 5 * 60 * 1000
   \<and> maxSize (PermissionCache \<lparr> opt_ttl = t, opt_maxSize = Some 0 \<rparr>) = 1000
   \<and> (t1 - t0 \<le> 5 * 60 * 1000 \<longrightarrow>
        fst (cache_get params t1
              (cache_set params v tc t0 (PermissionCache \<lparr> opt_ttl = Some 0, opt_maxSize = m \<rparr>)))
          = Some v)"
  by (simp add: cache_get_after_set PermissionCache_def js_or_default_def
      DEFAULT_CACHE_TTL_def DEFAULT_MAX_CACHE_SIZE_def)

theorem zero_ttl_falls_back_witness:
  "fst (cache_get \<lparr> workspaceId = 1, userId = 2, objectType = ''field'', objectId = 7, operation = ''read'' \<rparr> 300100
        (cache_set \<lparr> workspaceId = 1, userId = 2, objectType = ''field'', objectId = 7, operation = ''read'' \<rparr> JTrue 100 100
          (PermissionCache \<lparr> opt_ttl = Some 0, opt_maxSize = Some 0 \<rparr>))) = Some JTrue"
proof -
  note z = zero_ttl_falls_back [where ?t1.0 = 300100 and ?t0.0 = 100 and params = "\<lparr> workspaceId = 1, userId = 2, objectType = ''field'', objectId = 7, operation = ''read'' \<rparr>"
      and v = JTrue and tc = 100 and m = "Some 0" and t = None]
  have x: "300100 - 100 \<le> (5 * 60 * 1000 :: int)" by simp
  show ?thesis by (rule mp [OF conjunct2 [OF conjunct2 [OF z]] x])
qed

section \<open>Condition rule priority\<close>

text \<open>
  C7: for every row and acting user, the row-level decision of the rule engine is the
  permission level of an active rule that matches the row and whose priority no other
  active matching rule exceeds, and there is no decision exactly when no active rule
  matches. In particular, of two active matching rules with priorities 5 and 10 the level
  of the priority-10 rule is applied, in whichever order the rules are listed.
\<close>

theorem condition_rule_priority:
  "(case evaluate_rules rules row user of
      None \<Rightarrow> \<not> (\<exists>r \<in> set rules. is_active r \<and> rule_matches r row user)
    | Some lvl \<Rightarrow>
        (\<exists>r \<in> set rules. is_active r \<and> rule_matches r row user
           \<and> rule_permission_level r = lvl
           \<and> (\<forall>r' \<in> set rules. is_active r' \<and> rule_matches r' row user
                 \<longrightarrow> priority r' \<le> priority r)))
   \<and> (is_active r5 \<and> rule_matches r5 row user \<and> priority r5 = 5
       \<and> is_active r10 \<and> rule_matches r10 row user \<and> priority r10 = 10
       \<longrightarrow> evaluate_rules [r5, r10] row user = Some (rule_permission_level r10)
         \<and> evaluate_rules [r10, r5] row user = Some (rule_permission_level r10))"
proof (intro conjI)
  show "case evaluate_rules rules row user of
      None \<Rightarrow> \<not> (\<exists>r \<in> set rules. is_active r \<and> rule_matches r row user)
    | Some lvl \<Rightarrow>
        (\<exists>r \<in> set rules. is_active r \<and> rule_matches r row user
           \<and> rule_permission_level r = lvl
           \<and> (\<forall>r' \<in> set rules. is_active r' \<and> rule_matches r' row user
                 \<longrightarrow> priority r' \<le> priority r))"
  proof (cases "select_rule (matching_rules rules row user)")
    case None
    then have "matching_rules rules row user = []" by (simp add: select_rule_None)
    then have "\<not> (\<exists>r \<in> set rules. is_active r \<and> rule_matches r row user)"
      by (auto simp add: matching_rules_def filter_empty_conv)
    with None show ?thesis by (simp add: evaluate_rules_def)
  next
    case (Some r)
    from select_rule_max [OF Some]
    have "r \<in> set rules \<and> is_active r \<and> rule_matches r row user
          \<and> (\<forall>r' \<in> set rules. is_active r' \<and> rule_matches r' row user
                 \<longrightarrow> priority r' \<le> priority r)"
      by (auto simp add: matching_rules_def)
    with Some show ?thesis by (auto simp add: evaluate_rules_def)
  qed
  show "is_active r5 \<and> rule_matches r5 row user \<and> priority r5 = 5
       \<and> is_active r10 \<and> rule_matches r10 row user \<and> priority r10 = 10
       \<longrightarrow> evaluate_rules [r5, r10] row user = Some (rule_permission_level r10)
         \<and> evaluate_rules [r10, r5] row user = Some (rule_permission_level r10)"
    by (simp add: evaluate_rules_def matching_rules_def outranks_def)
qed

theorem condition_rule_priority_witness:
  "evaluate_rules
     [\<lparr> rule_id = 1, condition_type = Creator,
          condition_config = \<lparr> config_field_id = None, config_operator = None, config_value = None \<rparr>,
          rule_permission_level = ReadOnly, priority = 5, logic_operator = LogicAnd,
          is_active = True \<rparr>,
      \<lparr> rule_id = 2, condition_type = FieldMatch,
          condition_config = \<lparr> config_field_id = Some 3, config_operator = Some GreaterThan, config_value = Some (NumberValue 10) \<rparr>,
          rule_permission_level = Editable, priority = 10, logic_operator = LogicAnd,
          is_active = True \<rparr>]
     \<lparr> created_by = Some 4, row_values = [(3, NumberValue 12)] \<rparr> 4 = Some Editable"
proof -
  let ?r5 = "\<lparr> rule_id = 1, condition_type = Creator,
          condition_config = \<lparr> config_field_id = None, config_operator = None, config_value = None \<rparr>,
          rule_permission_level = ReadOnly, priority = 5, logic_operator = LogicAnd,
          is_active = True \<rparr>"
  let ?r10 = "\<lparr> rule_id = 2, condition_type = FieldMatch,
          condition_config = \<lparr> config_field_id = Some 3, config_operator = Some GreaterThan, config_value = Some (NumberValue 10) \<rparr>,
          rule_permission_level = Editable, priority = 10, logic_operator = LogicAnd,
          is_active = True \<rparr>"
  let ?row = "\<lparr> created_by = Some 4, row_values = [(3, NumberValue 12)] \<rparr>"
  have m: "rule_matches ?r5 ?row 4" "rule_matches ?r10 ?row 4"
    by (simp_all add: rule_matches_def compare_values_def)
  have h: "is_active ?r5 \<and> rule_matches ?r5 ?row 4 \<and> priority ?r5 = 5
       \<and> is_active ?r10 \<and> rule_matches ?r10 ?row 4 \<and> priority ?r10 = 10"
    using m by simp
  note z = condition_rule_priority
      [where ?r5.0 = ?r5 and ?r10.0 = ?r10 and row = ?row and user = 4 and rules = "[?r5, ?r10]"]
  have "evaluate_rules [?r5, ?r10] ?row 4 = Some (rule_permission_level ?r10)"
    by (rule conjunct1 [OF mp [OF conjunct2 [OF z] h]])
  then show ?thesis by simp
qed

end
